theory Spec2Isabelle
  imports Main
begin

section \<open>Strings and exceptions\<close>

text \<open>
  A Python \<open>str\<close> is a sequence of Unicode code points and \<open>len\<close> counts code points,
  so a string is a list of code points, each a natural number. \<open>ustr\<close> reads an ASCII
  literal.
\<close>

type_synonym pystr = "nat list"

definition ustr :: "string \<Rightarrow> pystr" where
  "ustr s = map of_char s"

abbreviation slash :: nat where "slash \<equiv> 47"
abbreviation dot :: nat where "dot \<equiv> 46"
abbreviation hyphen :: nat where "hyphen \<equiv> 45"
abbreviation underscore :: nat where "underscore \<equiv> 95"
abbreviation space :: nat where "space \<equiv> 32"

abbreviation curdir :: pystr where "curdir \<equiv> [dot]"
abbreviation pardir :: pystr where "pardir \<equiv> [dot, dot]"

text \<open>
  The exception classes the source raises or lets through, with their method resolution
  order; \<open>class SuspiciousFileOperation(ValueError)\<close> is line 26 of storage.py. The
  message of an exception is kept as the \<open>raise\<close> statement it comes from:
  \<^item> \<open>CouldNotDerive\<close>: "Could not derive file name from ..." (lines 35 and 53);
  \<^item> \<open>NotSubpath\<close>: "Path ... is not subpath of ..." (line 43);
  \<^item> \<open>TraversalAttempt\<close>: "Detected path traversal attempt in ..." (line 57);
  \<^item> \<open>IncludesPathElements\<close>: "File name ... includes path elements" (line 61);
  \<^item> \<open>DetectedTraversal\<close>: "Detected path traversal ..." (line 111);
  \<^item> \<open>NoAvailableName\<close>: "Storage can not find an available filename for ..." (line 126);
  \<^item> \<open>InvalidBaseUrl\<close>: "Invalid base_url" (line 163);
  \<^item> \<open>NotADirectory\<close>: "... exists and its not a directory" (line 176);
  \<^item> \<open>Library\<close>: an exception raised inside the standard library.
\<close>

datatype exc_type =
  Exception | ValueError | SuspiciousFileOperation | LookupError | IndexError
  | OSError | FileExistsError | FileNotFoundError | NotADirectoryError

datatype message =
  CouldNotDerive | NotSubpath | TraversalAttempt | IncludesPathElements
  | DetectedTraversal | NoAvailableName | InvalidBaseUrl | NotADirectory | Library

datatype exn = Raised (exc_class: exc_type) (exc_message: message)

fun mro :: "exc_type \<Rightarrow> exc_type list" where
  "mro Exception = [Exception]"
| "mro ValueError = [ValueError, Exception]"
| "mro SuspiciousFileOperation = [SuspiciousFileOperation, ValueError, Exception]"
| "mro LookupError = [LookupError, Exception]"
| "mro IndexError = [IndexError, LookupError, Exception]"
| "mro OSError = [OSError, Exception]"
| "mro FileExistsError = [FileExistsError, OSError, Exception]"
| "mro FileNotFoundError = [FileNotFoundError, OSError, Exception]"
| "mro NotADirectoryError = [NotADirectoryError, OSError, Exception]"

definition issubclass :: "exc_type \<Rightarrow> exc_type \<Rightarrow> bool" where
  "issubclass c d = (d \<in> set (mro c))"

definition isinstance :: "exn \<Rightarrow> exc_type \<Rightarrow> bool" where
  "isinstance e d = issubclass (exc_class e) d"


section \<open>pathlib, POSIX flavour\<close>

text \<open>
  The source handles every name through \<open>pathlib.Path\<close>. This section follows
  \<open>PurePosixPath\<close> of Python 3.10 to 3.12 (the source needs 3.10 for \<open>ParamSpec\<close>):
  a path is its root (\<open>''\<close>, \<open>/\<close> or \<open>//\<close>) and its name components; \<open>parts\<close> puts the
  root in front, as the attribute of the same name does.
\<close>

datatype path = PosixPath (root: pystr) (names: "pystr list")

datatype pathlike = Str pystr | P path

fun split_on :: "nat \<Rightarrow> pystr \<Rightarrow> pystr list" where
  "split_on s [] = [[]]"
| "split_on s (c # cs) =
     (if c = s then [] # split_on s cs
      else (case split_on s cs of [] \<Rightarrow> [[c]] | w # ws \<Rightarrow> (c # w) # ws))"

fun join_on :: "nat \<Rightarrow> pystr list \<Rightarrow> pystr" where
  "join_on s [] = []"
| "join_on s [x] = x"
| "join_on s (x # y # ys) = x @ s # join_on s (y # ys)"

definition lstrip :: "nat \<Rightarrow> pystr \<Rightarrow> pystr" where
  "lstrip c s = dropWhile (\<lambda>x. x = c) s"

definition rstrip :: "nat \<Rightarrow> pystr \<Rightarrow> pystr" where
  "rstrip c s = rev (dropWhile (\<lambda>x. x = c) (rev s))"

definition splitroot :: "pystr \<Rightarrow> pystr \<times> pystr" where
  "splitroot part =
     (if part \<noteq> [] \<and> hd part = slash then
        (let stripped_part = lstrip slash part
         in if length part - length stripped_part = 2
            then ([slash, slash], stripped_part)
            else ([slash], stripped_part))
      else ([], part))"

text \<open>
  \<open>parse_parts\<close> walks its arguments from the last to the first, skips the empty ones,
  keeps the components that are neither empty nor \<open>.\<close> and stops at the first argument
  with a root. \<open>parse_rev\<close> takes the arguments already reversed.
\<close>

fun parse_rev :: "pystr list \<Rightarrow> pystr \<times> pystr list" where
  "parse_rev [] = ([], [])"
| "parse_rev (part # more) =
     (if part = [] then parse_rev more
      else (let (rt, rel) = splitroot part;
                parsed = filter (\<lambda>x. x \<noteq> [] \<and> x \<noteq> curdir) (split_on slash rel)
            in if rt \<noteq> [] then (rt, parsed)
               else (let (rt', parsed') = parse_rev more in (rt', parsed' @ parsed))))"

definition parse_parts :: "pystr list \<Rightarrow> path" where
  "parse_parts args = (let (rt, ns) = parse_rev (rev args) in PosixPath rt ns)"

definition parts :: "path \<Rightarrow> pystr list" where
  "parts p = (if root p = [] then [] else [root p]) @ names p"

fun arg_parts :: "pathlike \<Rightarrow> pystr list" where
  "arg_parts (Str s) = [s]"
| "arg_parts (P p) = parts p"

definition parse_args :: "pathlike list \<Rightarrow> path" where
  "parse_args args = parse_parts (concat (map arg_parts args))"

definition Path :: "pathlike \<Rightarrow> path" where
  "Path a = parse_args [a]"

definition str :: "path \<Rightarrow> pystr" where
  "str p = (let s = root p @ join_on slash (names p) in if s = [] then curdir else s)"

definition name :: "path \<Rightarrow> pystr" where
  "name p = (if names p = [] then [] else last (names p))"

definition is_absolute :: "path \<Rightarrow> bool" where
  "is_absolute p = (root p \<noteq> [])"

text \<open>\<open>rfind\<close> gives the index of the last occurrence, or \<open>-1\<close>.\<close>

fun rfind :: "pystr \<Rightarrow> nat \<Rightarrow> int" where
  "rfind [] c = - 1"
| "rfind (x # xs) c =
     (let i = rfind xs c in if i \<ge> 0 then i + 1 else if x = c then 0 else - 1)"

definition suffix :: "path \<Rightarrow> pystr" where
  "suffix p =
     (let nm = name p; i = rfind nm dot
      in if 0 < i \<and> i < int (length nm) - 1 then drop (nat i) nm else [])"

definition stem :: "path \<Rightarrow> pystr" where
  "stem p =
     (let nm = name p; i = rfind nm dot
      in if 0 < i \<and> i < int (length nm) - 1 then take (nat i) nm else nm)"

text \<open>
  \<open>with_name\<close> raises \<open>ValueError\<close> when the path has no name or when the new name
  is not exactly one component; \<open>with_stem\<close> puts the old suffix behind the new stem.
\<close>

definition with_name :: "path \<Rightarrow> pystr \<Rightarrow> exn + path" where
  "with_name p nm =
     (if name p = [] then Inl (Raised ValueError Library)
      else (let q = parse_parts [nm]
            in if nm = [] \<or> last nm = slash \<or> root q \<noteq> [] \<or> length (names q) \<noteq> 1
               then Inl (Raised ValueError Library)
               else Inr (PosixPath (root p) (butlast (names p) @ [nm]))))"

definition with_stem :: "path \<Rightarrow> pystr \<Rightarrow> exn + path" where
  "with_stem p st = with_name p (st @ suffix p)"

definition joinpath :: "path \<Rightarrow> pathlike list \<Rightarrow> path" where
  "joinpath p args =
     (let q = parse_args args
      in if root q \<noteq> [] then q else PosixPath (root p) (names p @ names q))"

definition is_relative_to :: "path \<Rightarrow> path \<Rightarrow> bool" where
  "is_relative_to p other = (take (length (parts other)) (parts p) = parts other)"

text \<open>
  \<open>Path.resolve()\<close> is \<open>os.path.realpath\<close>: the path is made absolute from the
  current directory and walked component by component, \<open>..\<close> dropping the last
  component kept so far (and staying at the root there). The walk below is the one
  \<open>realpath\<close> does on a file system without symbolic links on the way; the current
  directory \<open>cwd\<close> is given by its components.
\<close>

fun walk :: "pystr list \<Rightarrow> pystr list \<Rightarrow> pystr list" where
  "walk acc [] = acc"
| "walk acc (n # ns) =
     (if n = [] \<or> n = curdir then walk acc ns
      else if n = pardir then walk (butlast acc) ns
      else walk (acc @ [n]) ns)"

definition resolve :: "pystr list \<Rightarrow> path \<Rightarrow> path" where
  "resolve cwd p = PosixPath [slash] (walk (if is_absolute p then [] else cwd) (names p))"


section \<open>The module-level functions of storage.py\<close>

subsection \<open>get_valid_filename\<close>

text \<open>
  \<open>str.strip\<close>, \<open>unicodedata.normalize\<close> and the class \<open>\w\<close> of \<open>re\<close> read the Unicode
  character database, which is not part of the source: it is a parameter, holding
  \<open>str.isspace\<close>, the NFKD normal form and the characters that \<open>\w\<close> matches.
\<close>

record unicode_db =
  isspace :: "nat \<Rightarrow> bool"
  nfkd :: "pystr \<Rightarrow> pystr"
  isword :: "nat \<Rightarrow> bool"

definition strip :: "unicode_db \<Rightarrow> pystr \<Rightarrow> pystr" where
  "strip u s = rev (dropWhile (isspace u) (rev (dropWhile (isspace u) s)))"

definition replace :: "nat \<Rightarrow> nat \<Rightarrow> pystr \<Rightarrow> pystr" where
  "replace old new s = map (\<lambda>c. if c = old then new else c) s"

definition get_valid_filename :: "unicode_db \<Rightarrow> pystr \<Rightarrow> exn + pystr" where
  "get_valid_filename u nm =
     (let s = replace space underscore (strip u nm);
          s = nfkd u s;
          s = filter (\<lambda>c. isword u c \<or> c = dot \<or> c = hyphen) s
      in if s \<in> {[], curdir, pardir}
         then Inl (Raised SuspiciousFileOperation CouldNotDerive)
         else Inr s)"

subsection \<open>safe_join\<close>

definition safe_join :: "pystr list \<Rightarrow> pathlike \<Rightarrow> pathlike list \<Rightarrow> exn + pystr" where
  "safe_join cwd base pth =
     (let base_path = resolve cwd (Path base);
          joined_path = resolve cwd (joinpath base_path pth)
      in if \<not> is_relative_to joined_path base_path
         then Inl (Raised SuspiciousFileOperation NotSubpath)
         else Inr (str joined_path))"

subsection \<open>validate_file_name\<close>

definition validate_file_name :: "pathlike \<Rightarrow> bool \<Rightarrow> exn + pathlike" where
  "validate_file_name filename allow_relative_path =
     (let pth = Path filename
      in if name pth \<in> {[], curdir, pardir}
         then Inl (Raised SuspiciousFileOperation CouldNotDerive)
         else if allow_relative_path then
           (if is_absolute pth \<or> pardir \<in> set (parts pth)
            then Inl (Raised SuspiciousFileOperation TraversalAttempt)
            else Inr filename)
         else (case parts pth of
                 [] \<Rightarrow> Inl (Raised IndexError Library)
               | p0 # _ \<Rightarrow>
                   if p0 \<noteq> name pth
                   then Inl (Raised SuspiciousFileOperation IncludesPathElements)
                   else Inr filename))"


section \<open>BaseStorage\<close>

text \<open>
  \<open>secrets.choice(seq)\<close> is \<open>seq[randbelow(len(seq))]\<close>. The operating system's
  entropy is a parameter: \<open>rnd\<close> is the sequence of numbers it hands out and the
  position \<open>pos\<close> counts the ones already used; \<open>randbelow n\<close> reduces the next number
  below \<open>n\<close>.
\<close>

definition ascii_letters :: pystr where
  "ascii_letters = ustr ''abcdefghijklmnopqrstuvwxyzABCDEFGHIJKLMNOPQRSTUVWXYZ''"

definition digits :: pystr where
  "digits = ustr ''0123456789''"

definition RANDOM_STRING_CHARS :: pystr where
  "RANDOM_STRING_CHARS = ascii_letters @ digits"

definition choice :: "(nat \<Rightarrow> nat) \<Rightarrow> nat \<Rightarrow> pystr \<Rightarrow> nat" where
  "choice rnd pos seq = seq ! (rnd pos mod length seq)"

definition get_alternative_stem ::
  "(nat \<Rightarrow> nat) \<Rightarrow> nat \<Rightarrow> pystr \<Rightarrow> nat \<Rightarrow> pystr \<Rightarrow> pystr \<times> nat" where
  "get_alternative_stem rnd pos stm random_length sep =
     (let s = map (\<lambda>i. choice rnd (pos + i) RANDOM_STRING_CHARS) [0..<random_length]
      in (stm @ sep @ s, pos + random_length))"

text \<open>
  \<open>get_available_filename\<close>: the checks before the loop, then the \<open>while\<close> loop as
  \<open>find_available\<close>. \<open>exists\<close> is the storage's method, which may raise; the loop may
  run for ever, so it is given \<open>fuel\<close>, one unit for each test of its condition, and
  \<open>None\<close> says that the fuel ran out. The defaults \<open>random_length=7\<close> and \<open>sep="_"\<close>
  of \<open>get_alternative_stem\<close> are written at the calls. \<open>stem[:-truncation]\<close> with a
  positive \<open>truncation\<close> keeps the first \<open>len(stem) - truncation\<close> characters, none when
  that is not positive. What \<open>print\<close> writes is left out.
\<close>

fun find_available ::
  "nat \<Rightarrow> (pystr \<Rightarrow> exn + bool) \<Rightarrow> (nat \<Rightarrow> nat) \<Rightarrow> path \<Rightarrow> int \<Rightarrow> pystr \<Rightarrow> nat
    \<Rightarrow> (exn + pystr \<times> nat) option" where
  "find_available 0 exists rnd origin_path max_len filename pos = None"
| "find_available (Suc fuel) exists rnd origin_path max_len filename pos =
     (case exists filename of
        Inl e \<Rightarrow> Some (Inl e)
      | Inr found \<Rightarrow>
          if found \<or> (max_len > 0 \<and> int (length filename) > max_len) then
            (case with_stem origin_path
                    (fst (get_alternative_stem rnd pos (stem origin_path) 7 [underscore])) of
               Inl e \<Rightarrow> Some (Inl e)
             | Inr p1 \<Rightarrow>
                 (let pos1 = snd (get_alternative_stem rnd pos (stem origin_path) 7 [underscore]);
                      filename1 = str p1
                  in if max_len \<le> 0
                     then find_available fuel exists rnd origin_path max_len filename1 pos1
                     else
                       (let truncation = int (length filename1) - max_len
                        in if truncation > 0 then
                             (let truncated_stem =
                                    take (length (stem origin_path) - nat truncation)
                                      (stem origin_path)
                              in if truncated_stem = []
                                 then Some (Inl (Raised SuspiciousFileOperation NoAvailableName))
                                 else
                                   (case with_stem origin_path
                                           (fst (get_alternative_stem rnd pos1 truncated_stem
                                                   7 [underscore])) of
                                      Inl e \<Rightarrow> Some (Inl e)
                                    | Inr p2 \<Rightarrow>
                                        find_available fuel exists rnd origin_path max_len (str p2)
                                          (snd (get_alternative_stem rnd pos1 truncated_stem
                                                  7 [underscore]))))
                           else find_available fuel exists rnd origin_path max_len filename1 pos1)))
          else Some (Inr (filename, pos)))"

definition get_available_filename ::
  "nat \<Rightarrow> (pystr \<Rightarrow> exn + bool) \<Rightarrow> (nat \<Rightarrow> nat) \<Rightarrow> nat \<Rightarrow> pystr \<Rightarrow> int
    \<Rightarrow> (exn + pystr \<times> nat) option" where
  "get_available_filename fuel exists rnd pos filename max_len =
     (let origin_path = Path (Str filename)
      in if pardir \<in> set (parts origin_path)
         then Some (Inl (Raised SuspiciousFileOperation DetectedTraversal))
         else (case validate_file_name (Str (name origin_path)) False of
                 Inl e \<Rightarrow> Some (Inl e)
               | Inr _ \<Rightarrow> find_available fuel exists rnd origin_path max_len filename pos))"


section \<open>FileSystemStorage\<close>

text \<open>
  The two fields that \<open>__init__\<close> sets. \<open>location\<close> and \<open>base_url\<close> are cached
  properties of fields that nothing in the source assigns again, so each is modelled
  by the computation it caches; the current directory is a parameter.
\<close>

record FileSystemStorage =
  location_field :: pathlike
  base_url_field :: "pystr option"

definition location :: "pystr list \<Rightarrow> FileSystemStorage \<Rightarrow> path" where
  "location cwd self = resolve cwd (Path (location_field self))"

definition base_url :: "FileSystemStorage \<Rightarrow> exn + pystr" where
  "base_url self =
     (case base_url_field self of
        None \<Rightarrow> Inl (Raised ValueError InvalidBaseUrl)
      | Some b \<Rightarrow> if b = [] then Inl (Raised ValueError InvalidBaseUrl)
                  else Inr (rstrip slash b))"

definition url :: "FileSystemStorage \<Rightarrow> pystr \<Rightarrow> exn + pystr" where
  "url self filename =
     (case validate_file_name (Str filename) True of
        Inl e \<Rightarrow> Inl e
      | Inr _ \<Rightarrow>
          (case base_url self of
             Inl e \<Rightarrow> Inl e
           | Inr b \<Rightarrow> Inr (b @ [slash] @ lstrip slash filename)))"

text \<open>
  The file system below the root directory: what is stored at each canonical absolute
  path. The root directory \<open>/\<close> is always there.
\<close>

datatype node = Dir | File "nat list"

type_synonym fs = "pystr \<Rightarrow> node option"

definition node_at :: "fs \<Rightarrow> pystr \<Rightarrow> node option" where
  "node_at tree p = (if p = [slash] then Some Dir else tree p)"

definition lexists :: "fs \<Rightarrow> pystr \<Rightarrow> bool" where
  "lexists tree p = (node_at tree p \<noteq> None)"

definition exists :: "pystr list \<Rightarrow> FileSystemStorage \<Rightarrow> fs \<Rightarrow> pystr \<Rightarrow> exn + bool" where
  "exists cwd self tree filename =
     (case safe_join cwd (P (location cwd self)) [Str filename] of
        Inl e \<Rightarrow> Inl e
      | Inr dst_path \<Rightarrow> Inr (lexists tree dst_path))"

text \<open>
  \<open>os.makedirs(path, exist_ok=True)\<close> creates the missing directories from the root
  downwards. A regular file in the place of the last directory gives \<open>FileExistsError\<close>,
  one in the place of an earlier directory \<open>NotADirectoryError\<close>.
\<close>

fun makedirs :: "fs \<Rightarrow> pystr list \<Rightarrow> pystr list \<Rightarrow> exn + fs" where
  "makedirs tree made [] = Inr tree"
| "makedirs tree made (n # ns) =
     (let d = str (PosixPath [slash] (made @ [n]))
      in case node_at tree d of
           None \<Rightarrow> makedirs (tree(d \<mapsto> Dir)) (made @ [n]) ns
         | Some Dir \<Rightarrow> makedirs tree (made @ [n]) ns
         | Some (File _) \<Rightarrow>
             Inl (Raised (if ns = [] then FileExistsError else NotADirectoryError) Library))"

definition parent :: "path \<Rightarrow> path" where
  "parent p = (if names p = [] then p else PosixPath (root p) (butlast (names p)))"

text \<open>
  \<open>open(dst_path, "xb")\<close> followed by the write: exclusive creation fails with
  \<open>FileExistsError\<close> when anything is at the path already.
\<close>

definition open_xb :: "fs \<Rightarrow> path \<Rightarrow> nat list \<Rightarrow> exn + fs" where
  "open_xb tree dst_path content =
     (case node_at tree (str dst_path) of
        Some _ \<Rightarrow> Inl (Raised FileExistsError Library)
      | None \<Rightarrow>
          (case node_at tree (str (parent dst_path)) of
             None \<Rightarrow> Inl (Raised FileNotFoundError Library)
           | Some (File _) \<Rightarrow> Inl (Raised NotADirectoryError Library)
           | Some Dir \<Rightarrow> Inr (tree(str dst_path \<mapsto> File content))))"

text \<open>
  The state around a \<open>save\<close>: the files, the position in the entropy, and what the
  other writers of the same root do. \<open>writers\<close> lists, for each attempt to create the
  file, the canonical paths that other writers create just before it (after the name
  was found free).
\<close>

record world =
  files :: fs
  rng_pos :: nat
  writers :: "pystr list list"

definition others_write :: "world \<Rightarrow> world" where
  "others_write w =
     (case writers w of
        [] \<Rightarrow> w
      | ps # rest \<Rightarrow>
          w\<lparr>files := fold (\<lambda>p f. if node_at f p = None then f(p \<mapsto> File []) else f) ps (files w),
            writers := rest\<rparr>)"

text \<open>
  The \<open>while True\<close> loop of \<open>_save\<close>, one unit of fuel for each attempt; the retry calls
  \<open>get_available_filename(filename)\<close>, with \<open>max_len\<close> at its default 0.
\<close>

fun write_loop ::
  "nat \<Rightarrow> pystr list \<Rightarrow> FileSystemStorage \<Rightarrow> (nat \<Rightarrow> nat) \<Rightarrow> nat list \<Rightarrow> world \<Rightarrow> pystr \<Rightarrow> path
    \<Rightarrow> ((exn + pystr) \<times> world) option" where
  "write_loop 0 cwd self rnd content w filename dst_path = None"
| "write_loop (Suc fuel) cwd self rnd content w filename dst_path =
     (let w1 = others_write w
      in case open_xb (files w1) dst_path content of
           Inr files' \<Rightarrow> Some (Inr filename, w1\<lparr>files := files'\<rparr>)
         | Inl e \<Rightarrow>
             if isinstance e FileExistsError then
               (case get_available_filename fuel (exists cwd self (files w1)) rnd (rng_pos w1)
                       filename 0 of
                  None \<Rightarrow> None
                | Some (Inl e') \<Rightarrow> Some (Inl e', w1)
                | Some (Inr (filename', pos')) \<Rightarrow>
                    (case safe_join cwd (P (location cwd self)) [Str filename'] of
                       Inl e' \<Rightarrow> Some (Inl e', w1\<lparr>rng_pos := pos'\<rparr>)
                     | Inr d \<Rightarrow>
                         write_loop fuel cwd self rnd content (w1\<lparr>rng_pos := pos'\<rparr>) filename'
                           (Path (Str d))))
             else Some (Inl e, w1))"

text \<open>
  \<open>FileSystemStorage._save\<close>, here \<open>u_save\<close> since a name cannot begin with an
  underscore; \<open>content\<close> is what \<open>data.read()\<close> returns.
\<close>

definition u_save ::
  "nat \<Rightarrow> pystr list \<Rightarrow> FileSystemStorage \<Rightarrow> (nat \<Rightarrow> nat) \<Rightarrow> world \<Rightarrow> pystr \<Rightarrow> nat list
    \<Rightarrow> ((exn + pystr) \<times> world) option" where
  "u_save fuel cwd self rnd w filename content =
     (case safe_join cwd (P (location cwd self)) [Str filename] of
        Inl e \<Rightarrow> Some (Inl e, w)
      | Inr d \<Rightarrow>
          (let dst_path = Path (Str d)
           in case makedirs (files w) [] (names (parent dst_path)) of
                Inl e \<Rightarrow>
                  Some (Inl (if isinstance e FileExistsError
                             then Raised FileExistsError NotADirectory else e), w)
              | Inr files' \<Rightarrow>
                  write_loop fuel cwd self rnd content (w\<lparr>files := files'\<rparr>) filename dst_path))"

text \<open>\<open>BaseStorage.save\<close>, on a \<open>FileSystemStorage\<close>.\<close>

definition save ::
  "nat \<Rightarrow> pystr list \<Rightarrow> FileSystemStorage \<Rightarrow> (nat \<Rightarrow> nat) \<Rightarrow> world \<Rightarrow> pystr \<Rightarrow> nat list \<Rightarrow> int
    \<Rightarrow> ((exn + pystr) \<times> world) option" where
  "save fuel cwd self rnd w filename content max_len =
     (case get_available_filename fuel (exists cwd self (files w)) rnd (rng_pos w)
             filename max_len of
        None \<Rightarrow> None
      | Some (Inl e) \<Rightarrow> Some (Inl e, w)
      | Some (Inr (filename1, pos1)) \<Rightarrow>
          (case u_save fuel cwd self rnd (w\<lparr>rng_pos := pos1\<rparr>) filename1 content of
             None \<Rightarrow> None
           | Some (Inl e, w') \<Rightarrow> Some (Inl e, w')
           | Some (Inr filename2, w') \<Rightarrow>
               (case validate_file_name (Str filename2) True of
                  Inl e \<Rightarrow> Some (Inl e, w')
                | Inr _ \<Rightarrow> Some (Inr filename2, w'))))"


section \<open>Vocabulary of the properties\<close>

text \<open>
  A name component as \<open>parse_parts\<close> keeps it: not empty, not \<open>.\<close>, without a slash.
\<close>

definition wf_name :: "pystr \<Rightarrow> bool" where
  "wf_name n = (n \<noteq> [] \<and> n \<noteq> curdir \<and> slash \<notin> set n)"

text \<open>
  The seven characters that \<open>get_alternative_stem\<close> draws from position \<open>pos\<close>, and the
  name that the loop builds from a stem \<open>st\<close> and seven characters \<open>r\<close>: the directory
  components of the desired path, then \<open>st\<close>, the separator, \<open>r\<close> and the suffix of the
  desired name.
\<close>

definition block :: "(nat \<Rightarrow> nat) \<Rightarrow> nat \<Rightarrow> pystr" where
  "block rnd pos = map (\<lambda>i. choice rnd (pos + i) RANDOM_STRING_CHARS) [0..<7]"

definition alternative :: "path \<Rightarrow> pystr \<Rightarrow> pystr \<Rightarrow> pystr" where
  "alternative origin_path st r =
     str (PosixPath (root origin_path)
            (butlast (names origin_path) @ [st @ [underscore] @ r @ suffix origin_path]))"



text \<open>The characters \<open>[A-Za-z0-9._-]\<close>.\<close>

definition ascii_allowed :: pystr where
  "ascii_allowed = ascii_letters @ digits @ [dot, underscore, hyphen]"

text \<open>
  The character database on ASCII and on the Cyrillic small letters U+0430 to U+044F:
  the white space of ASCII, the word characters of both ranges, and the one
  decomposition there, of U+0439 into U+0438 U+0306.
\<close>

definition sample_db :: unicode_db where
  "sample_db =
     \<lparr>isspace = (\<lambda>c. c \<in> {9, 10, 11, 12, 13, 28, 29, 30, 31, 32}),
      nfkd = (\<lambda>s. concat (map (\<lambda>c. if c = 1081 then [1080, 774] else [c]) s)),
      isword = (\<lambda>c. c \<in> set (ascii_letters @ digits @ [underscore])
                    \<or> (1072 \<le> c \<and> c \<le> 1103))\<rparr>"

text \<open>
  A storage rooted at \<open>/srv/up\<close> with nothing stored yet, in which another writer
  creates \<open>/srv/up/a.txt\<close> just before the first attempt to create a file.
\<close>

definition sample_storage :: FileSystemStorage where
  "sample_storage = \<lparr>location_field = Str (ustr ''/srv/up''), base_url_field = None\<rparr>"

definition racing_world :: world where
  "racing_world =
     \<lparr>files = Map.empty, rng_pos = 0, writers = [[ustr ''/srv/up/a.txt'']]\<rparr>"


section \<open>Facts about parsing and about the random characters\<close>

lemma split_on_notin: "c \<notin> set x \<Longrightarrow> split_on c x = [x]"
  by (induction x) auto

lemma split_on_nonempty: "split_on c s \<noteq> []"
  by (induction s) (auto split: list.splits)

lemma split_on_no_sep: "x \<in> set (split_on c s) \<Longrightarrow> c \<notin> set x"
  by (induction s arbitrary: x) (auto split: if_splits list.splits)

lemma parse_rev_single:
  "parse_rev [s] = (if s = [] then ([], [])
     else (fst (splitroot s), filter (\<lambda>x. x \<noteq> [] \<and> x \<noteq> curdir) (split_on slash (snd (splitroot s)))))"
  by (simp add: Let_def split: prod.splits)

lemma Path_Str:
  "Path (Str s) = (if s = [] then PosixPath [] []
     else PosixPath (fst (splitroot s)) (filter (\<lambda>x. x \<noteq> [] \<and> x \<noteq> curdir) (split_on slash (snd (splitroot s)))))"
  by (simp add: Path_def parse_args_def parse_parts_def parse_rev_single del: parse_rev.simps)

lemma names_Path_wf: "n \<in> set (names (Path (Str s))) \<Longrightarrow> wf_name n"
  by (auto simp: Path_Str wf_name_def split: if_splits dest: split_on_no_sep)

lemma root_Path: "root (Path (Str s)) \<in> {[], [slash], [slash, slash]}"
  by (simp add: Path_Str splitroot_def Let_def)

lemma parse_parts_single: "wf_name n \<Longrightarrow> parse_parts [n] = PosixPath [] [n]"
  by (cases n) (auto simp: parse_parts_def wf_name_def splitroot_def split_on_notin Let_def)

lemma length_RSC: "length RANDOM_STRING_CHARS = 62"
  by (simp add: RANDOM_STRING_CHARS_def ascii_letters_def digits_def ustr_def)

lemma choice_in: "choice rnd pos RANDOM_STRING_CHARS \<in> set RANDOM_STRING_CHARS"
  unfolding choice_def by (rule nth_mem) (simp add: length_RSC)

lemma RSC_range: "c \<in> set RANDOM_STRING_CHARS \<Longrightarrow> 48 \<le> c \<and> c \<le> 122"
  by (auto simp: RANDOM_STRING_CHARS_def ascii_letters_def digits_def ustr_def)

lemma block_props: "length (block rnd pos) = 7" "set (block rnd pos) \<subseteq> set RANDOM_STRING_CHARS"
  by (auto simp: block_def choice_in)

lemma alt_stem: "get_alternative_stem rnd pos st 7 [underscore] = (st @ [underscore] @ block rnd pos, pos + 7)"
  by (simp add: get_alternative_stem_def block_def)


section \<open>The loop of get_available_filename\<close>

text \<open>
  After the checks of \<open>get_available_filename\<close> the desired path has a name, so
  \<open>with_stem\<close> cannot raise and the loop unfolds without its error branches.
\<close>

lemma suffix_subset: "set (suffix p) \<subseteq> set (name p)"
  by (auto simp: suffix_def Let_def dest: in_set_dropD)

lemma stem_subset: "set (stem p) \<subseteq> set (name p)"
  by (auto simp: stem_def Let_def dest: in_set_takeD)

lemma stem_nonempty: "name p \<noteq> [] \<Longrightarrow> stem p \<noteq> []"
  by (auto simp: stem_def Let_def)

lemma name_wf: "name p \<noteq> [] \<Longrightarrow> \<forall>n\<in>set (names p). wf_name n \<Longrightarrow> wf_name (name p)"
  by (auto simp: name_def split: if_splits)

lemma with_name_ok:
  "name p \<noteq> [] \<Longrightarrow> wf_name nm \<Longrightarrow>
   with_name p nm = Inr (PosixPath (root p) (butlast (names p) @ [nm]))"
proof -
  assume a: "name p \<noteq> []" and w: "wf_name nm"
  have "last nm \<noteq> slash" using w by (metis last_in_set wf_name_def)
  with a w show ?thesis
    by (simp add: with_name_def parse_parts_single Let_def) (simp add: wf_name_def)
qed

lemma new_name_wf:
  assumes "wf_name (name p)" "set st \<subseteq> set (name p)" "set r \<subseteq> set RANDOM_STRING_CHARS"
  shows "wf_name (st @ [underscore] @ r @ suffix p)"
proof -
  have "slash \<notin> set (name p)" using assms(1) by (simp add: wf_name_def)
  moreover have "slash \<notin> set r" using assms(3) RSC_range by fastforce
  ultimately have "slash \<notin> set (st @ [underscore] @ r @ suffix p)"
    using assms(2) suffix_subset[of p] by auto
  moreover have "st @ [underscore] @ r @ suffix p \<noteq> curdir"
    by (cases st) auto
  ultimately show ?thesis by (simp add: wf_name_def)
qed

lemma with_stem_ok:
  assumes "name p \<noteq> []" "\<forall>n\<in>set (names p). wf_name n" "set st \<subseteq> set (name p)"
  shows "with_stem p (st @ underscore # block rnd pos)
         = Inr (PosixPath (root p) (butlast (names p) @ [st @ underscore # block rnd pos @ suffix p]))"
proof -
  have "wf_name (st @ [underscore] @ block rnd pos @ suffix p)"
    using new_name_wf[OF name_wf[OF assms(1,2)] assms(3) block_props(2)] .
  from with_name_ok[OF assms(1) this] show ?thesis
    by (simp add: with_stem_def)
qed

lemma find_available_Suc:
  assumes "name origin_path \<noteq> []" "\<forall>n\<in>set (names origin_path). wf_name n"
  shows "find_available (Suc fuel) ex rnd origin_path max_len filename pos =
     (case ex filename of
        Inl e \<Rightarrow> Some (Inl e)
      | Inr found \<Rightarrow>
          if found \<or> (max_len > 0 \<and> int (length filename) > max_len) then
            (if max_len \<le> 0
             then find_available fuel ex rnd origin_path max_len
                    (alternative origin_path (stem origin_path) (block rnd pos)) (pos + 7)
             else if int (length (alternative origin_path (stem origin_path) (block rnd pos))) - max_len > 0
             then (if take (length (stem origin_path)
                         - nat (int (length (alternative origin_path (stem origin_path) (block rnd pos))) - max_len))
                        (stem origin_path) = []
                   then Some (Inl (Raised SuspiciousFileOperation NoAvailableName))
                   else find_available fuel ex rnd origin_path max_len
                          (alternative origin_path
                             (take (length (stem origin_path)
                                - nat (int (length (alternative origin_path (stem origin_path) (block rnd pos))) - max_len))
                              (stem origin_path)) (block rnd (pos + 7))) (pos + 14))
             else find_available fuel ex rnd origin_path max_len
                    (alternative origin_path (stem origin_path) (block rnd pos)) (pos + 7))
          else Some (Inr (filename, pos)))"
proof -
  have a: "\<And>pos. with_stem origin_path (stem origin_path @ underscore # block rnd pos)
        = Inr (PosixPath (root origin_path) (butlast (names origin_path) @ [stem origin_path @ underscore # block rnd pos @ suffix origin_path]))"
    using with_stem_ok[OF assms stem_subset] .
  have b: "\<And>pos k. with_stem origin_path (take k (stem origin_path) @ underscore # block rnd pos)
        = Inr (PosixPath (root origin_path) (butlast (names origin_path) @ [take k (stem origin_path) @ underscore # block rnd pos @ suffix origin_path]))"
    by (rule with_stem_ok[OF assms]) (use stem_subset[of origin_path] in \<open>auto dest: in_set_takeD\<close>)
  have c: "stem origin_path \<noteq> []" using assms(1) by (rule stem_nonempty)
  show ?thesis
    by (simp add: a b c alternative_def alt_stem Let_def add.commute split: sum.splits)
qed

lemma length_join_snoc:
  "length (join_on s (ds @ [x])) = length (join_on s ds) + (if ds = [] then 0 else 1) + length x"
  by (induction s ds rule: join_on.induct) auto

lemma join_on_snoc_ne: "x \<noteq> [] \<Longrightarrow> join_on s (ds @ [x]) \<noteq> []"
  using length_join_snoc[of s ds x] by (cases "join_on s (ds @ [x])") auto

lemma length_alternative:
  "length (alternative p st r) =
     length (root p) + length (join_on slash (butlast (names p)))
       + (if butlast (names p) = [] then 0 else 1)
       + length st + 1 + length r + length (suffix p)"
  by (simp add: alternative_def str_def Let_def length_join_snoc join_on_snoc_ne)

lemma find_available_inv:
  assumes "name origin \<noteq> []" "\<forall>n\<in>set (names origin). wf_name n"
  shows "find_available fuel ex rnd origin max_len filename pos = Some res \<Longrightarrow>
     (case res of
        Inl e \<Rightarrow> (\<exists>n. ex n = Inl e) \<or> (e = Raised SuspiciousFileOperation NoAvailableName \<and> 0 < max_len)
      | Inr (n, p) \<Rightarrow>
          ex n = Inr False \<and> (0 < max_len \<longrightarrow> int (length n) \<le> max_len) \<and>
          (n = filename \<or>
           (\<exists>k r. 0 < k \<and> k \<le> length (stem origin) \<and> length r = 7 \<and>
                  set r \<subseteq> set RANDOM_STRING_CHARS \<and>
                  n = alternative origin (take k (stem origin)) r \<and>
                  (k < length (stem origin) \<longrightarrow> int (length n) = max_len))))"
proof (induction fuel arbitrary: filename pos)
  case 0
  then show ?case by simp
next
  case (Suc fuel)
  let ?S = "\<lambda>n. \<exists>k r. 0 < k \<and> k \<le> length (stem origin) \<and> length r = 7 \<and>
                  set r \<subseteq> set RANDOM_STRING_CHARS \<and>
                  n = alternative origin (take k (stem origin)) r \<and>
                  (k < length (stem origin) \<longrightarrow> int (length n) = max_len)"
  let ?Q = "\<lambda>filename. (case res of
        Inl e \<Rightarrow> (\<exists>n. ex n = Inl e) \<or> (e = Raised SuspiciousFileOperation NoAvailableName \<and> 0 < max_len)
      | Inr (n, p) \<Rightarrow>
          ex n = Inr False \<and> (0 < max_len \<longrightarrow> int (length n) \<le> max_len) \<and>
          (n = filename \<or> ?S n))"
  have stem_ne: "stem origin \<noteq> []" using assms(1) by (rule stem_nonempty)
  let ?f1 = "alternative origin (stem origin) (block rnd pos)"
  let ?t = "int (length ?f1) - max_len"
  let ?k = "length (stem origin) - nat ?t"
  let ?f2 = "alternative origin (take ?k (stem origin)) (block rnd (pos + 7))"
  have S1: "?S ?f1"
    by (rule exI[of _ "length (stem origin)"], rule exI[of _ "block rnd pos"])
       (use stem_ne block_props in simp)
  have S2: "?S ?f2" if "0 < ?t" "take ?k (stem origin) \<noteq> []"
  proof -
    have k: "0 < ?k" using that(2) by (cases "?k") auto
    have len: "int (length ?f2) = max_len"
      using that(1) k by (simp add: length_alternative block_props min_def)
    show ?thesis
      by (rule exI[of _ ?k], rule exI[of _ "block rnd (pos + 7)"])
         (use k len block_props in simp)
  qed
  have step: "?Q f" if "find_available fuel ex rnd origin max_len f p = Some res" "?S f" for f p
    using Suc.IH[OF that(1)] that(2) by (auto split: sum.splits prod.splits)
  show ?case
  proof (cases "ex filename")
    case (Inl e)
    then show ?thesis using Suc.prems by (auto simp: find_available_Suc[OF assms] simp del: find_available.simps)
  next
    case (Inr found)
    show ?thesis
    proof (cases "found \<or> (max_len > 0 \<and> int (length filename) > max_len)")
      case False
      then show ?thesis using Suc.prems Inr
        by (auto simp: find_available_Suc[OF assms] simp del: find_available.simps)
    next
      case True
      consider (unbounded) "max_len \<le> 0"
        | (fits) "0 < max_len" "\<not> 0 < ?t"
        | (exhausted) "0 < max_len" "0 < ?t" "take ?k (stem origin) = []"
        | (truncated) "0 < max_len" "0 < ?t" "take ?k (stem origin) \<noteq> []"
        by linarith
      then have "?Q ?f1 \<or> ?Q ?f2 \<and> 0 < ?t \<and> take ?k (stem origin) \<noteq> []
                 \<or> res = Inl (Raised SuspiciousFileOperation NoAvailableName) \<and> 0 < max_len"
      proof cases
        case unbounded
        then have "find_available fuel ex rnd origin max_len ?f1 (pos + 7) = Some res"
          using Suc.prems Inr True by (simp add: find_available_Suc[OF assms] del: find_available.simps)
        from step[OF this S1] show ?thesis by simp
      next
        case fits
        then have "find_available fuel ex rnd origin max_len ?f1 (pos + 7) = Some res"
          using Suc.prems Inr True by (simp add: find_available_Suc[OF assms] del: find_available.simps)
        from step[OF this S1] show ?thesis by simp
      next
        case exhausted
        then have "res = Inl (Raised SuspiciousFileOperation NoAvailableName)"
          using Suc.prems Inr True by (simp add: find_available_Suc[OF assms] del: find_available.simps)
        then show ?thesis using exhausted by simp
      next
        case truncated
        then have "find_available fuel ex rnd origin max_len ?f2 (pos + 14) = Some res"
          using Suc.prems Inr True by (simp add: find_available_Suc[OF assms] del: find_available.simps)
        from step[OF this S2[OF truncated(2,3)]] show ?thesis using truncated by simp
      qed
      then show ?thesis using S1 S2
        by (auto split: sum.splits prod.splits)
    qed
  qed
qed

lemma name_Path_empty: "name (Path (Str [])) = []"
  by (simp add: Path_Str name_def)

lemma validate_raises:
  "validate_file_name f a = Inl e \<Longrightarrow>
   e \<in> {Raised SuspiciousFileOperation CouldNotDerive,
        Raised SuspiciousFileOperation TraversalAttempt,
        Raised SuspiciousFileOperation IncludesPathElements}"
  by (auto simp: validate_file_name_def Let_def name_def parts_def split: if_splits list.splits)

lemma validated_name:
  assumes "validate_file_name (Str (name p)) False = Inr v"
  shows "name p \<noteq> []"
proof
  assume "name p = []"
  with assms show False
    by (simp add: validate_file_name_def name_Path_empty)
qed

lemma get_available_filename_checked:
  assumes "pardir \<notin> set (parts (Path (Str filename)))"
    and "validate_file_name (Str (name (Path (Str filename)))) False = Inr v"
  shows "get_available_filename fuel ex rnd pos filename max_len
         = find_available fuel ex rnd (Path (Str filename)) max_len filename pos"
  using assms by (simp add: get_available_filename_def Let_def)

lemma get_available_filename_cases:
  "get_available_filename fuel ex rnd pos filename max_len = Some res \<Longrightarrow>
   res = Inl (Raised SuspiciousFileOperation DetectedTraversal)
   \<or> (\<exists>e. res = Inl e \<and> validate_file_name (Str (name (Path (Str filename)))) False = Inl e)
   \<or> (pardir \<notin> set (parts (Path (Str filename)))
       \<and> (\<exists>v. validate_file_name (Str (name (Path (Str filename)))) False = Inr v)
       \<and> find_available fuel ex rnd (Path (Str filename)) max_len filename pos = Some res)"
  by (auto simp: get_available_filename_def Let_def split: if_splits sum.splits)

lemma find_available_checked:
  assumes "validate_file_name (Str (name (Path (Str filename)))) False = Inr v"
    and "find_available fuel ex rnd (Path (Str filename)) max_len f pos = Some res"
  shows "case res of
        Inl e \<Rightarrow> (\<exists>n. ex n = Inl e) \<or> (e = Raised SuspiciousFileOperation NoAvailableName \<and> 0 < max_len)
      | Inr (n, p) \<Rightarrow>
          ex n = Inr False \<and> (0 < max_len \<longrightarrow> int (length n) \<le> max_len) \<and>
          (n = f \<or>
           (\<exists>k r. 0 < k \<and> k \<le> length (stem (Path (Str filename))) \<and> length r = 7 \<and>
                  set r \<subseteq> set RANDOM_STRING_CHARS \<and>
                  n = alternative (Path (Str filename)) (take k (stem (Path (Str filename)))) r \<and>
                  (k < length (stem (Path (Str filename))) \<longrightarrow> int (length n) = max_len)))"
  by (rule find_available_inv[OF validated_name[OF assms(1)] _ assms(2)])
     (simp add: names_Path_wf)




section \<open>Walking a path below a directory\<close>









section \<open>Reading a path back from its string\<close>

text \<open>
  \<open>Path(str(p))\<close> is \<open>p\<close> for a path as \<open>parse_parts\<close> builds it, and the suffix of a
  name is decided by its last dot.
\<close>

lemma split_on_sep: "c \<notin> set x \<Longrightarrow> split_on c (x @ c # rest) = x # split_on c rest"
  by (induction x) auto

lemma split_on_join:
  "ns \<noteq> [] \<Longrightarrow> \<forall>n\<in>set ns. c \<notin> set n \<Longrightarrow> split_on c (join_on c ns) = ns"
  by (induction c ns rule: join_on.induct) (auto simp: split_on_notin split_on_sep)

lemma filter_wf:
  "\<forall>n\<in>set ns. wf_name n \<Longrightarrow> filter (\<lambda>x. x \<noteq> [] \<and> x \<noteq> curdir) ns = ns"
  by (induction ns) (auto simp: wf_name_def)

lemma join_on_head:
  assumes "ns \<noteq> []" and w: "\<forall>n\<in>set ns. wf_name n"
  shows "join_on slash ns \<noteq> [] \<and> hd (join_on slash ns) \<noteq> slash"
proof (cases ns)
  case Nil
  with assms(1) show ?thesis by simp
next
  case (Cons x xs)
  with w have wx: "wf_name x" by simp
  then have "x \<noteq> []" by (simp add: wf_name_def)
  moreover have "hd x \<noteq> slash" using wx by (metis hd_in_set wf_name_def)
  ultimately show ?thesis using Cons
    by (cases xs) (auto simp: hd_append)
qed

lemma splitroot_relative: "s \<noteq> [] \<Longrightarrow> hd s \<noteq> slash \<Longrightarrow> splitroot s = ([], s)"
  by (simp add: splitroot_def)

lemma lstrip_head: "s = [] \<or> hd s \<noteq> slash \<Longrightarrow> lstrip slash s = s"
  by (cases s) (auto simp: lstrip_def)

lemma splitroot_one: "s = [] \<or> hd s \<noteq> slash \<Longrightarrow> splitroot (slash # s) = ([slash], s)"
  using lstrip_head[of s] by (simp add: splitroot_def lstrip_def Let_def)

lemma splitroot_two:
  "s = [] \<or> hd s \<noteq> slash \<Longrightarrow> splitroot (slash # slash # s) = ([slash, slash], s)"
  using lstrip_head[of s] by (simp add: splitroot_def lstrip_def Let_def)

lemma Path_str:
  assumes "root p \<in> {[], [slash], [slash, slash]}" and wf: "\<forall>n\<in>set (names p). wf_name n"
  shows "Path (Str (str p)) = p"
proof (cases "names p = []")
  case True
  have "Path (Str curdir) = PosixPath [] []" by code_simp
  moreover have "Path (Str [slash]) = PosixPath [slash] []" by code_simp
  moreover have "Path (Str [slash, slash]) = PosixPath [slash, slash] []" by code_simp
  ultimately show ?thesis using assms(1) True
    by (cases p) (auto simp: str_def)
next
  case False
  let ?j = "join_on slash (names p)"
  from join_on_head[OF False wf] have j: "?j \<noteq> []" "hd ?j \<noteq> slash" by simp_all
  have ns: "filter (\<lambda>x. x \<noteq> [] \<and> x \<noteq> curdir) (split_on slash ?j) = names p"
    using wf by (simp add: split_on_join[OF False] filter_wf wf_name_def)
  from assms(1) consider "root p = []" | "root p = [slash]" | "root p = [slash, slash]" by auto
  then show ?thesis
  proof cases
    case 1
    then show ?thesis using j ns
      by (cases p) (simp add: str_def Path_Str splitroot_relative)
  next
    case 2
    then show ?thesis using j ns
      by (cases p) (simp add: str_def Path_Str splitroot_one)
  next
    case 3
    then show ?thesis using j ns
      by (cases p) (simp add: str_def Path_Str splitroot_two)
  qed
qed

lemma rfind_notin: "c \<notin> set xs \<Longrightarrow> rfind xs c = - 1"
  by (induction xs) (auto simp: Let_def)

lemma rfind_append_notin: "c \<notin> set ys \<Longrightarrow> rfind (xs @ ys) c = rfind xs c"
  by (induction xs) (auto simp: Let_def rfind_notin)

lemma rfind_snoc: "rfind (xs @ [c]) c = int (length xs)"
  by (induction xs) (auto simp: Let_def)

lemma rfind_last: "c \<notin> set ys \<Longrightarrow> rfind (xs @ c # ys) c = int (length xs)"
  using rfind_append_notin[of c ys "xs @ [c]"] by (simp add: rfind_snoc)

lemma rfind_decomp:
  assumes "0 \<le> rfind xs c"
  shows "\<exists>pre post. xs = pre @ c # post \<and> c \<notin> set post \<and> rfind xs c = int (length pre)"
proof -
  have "c \<in> set xs" using assms rfind_notin[of c xs] by fastforce
  then obtain pre post where "xs = pre @ c # post" "c \<notin> set post"
    by (meson split_list_last)
  then show ?thesis using rfind_last by blast
qed

lemma rfind_ge: "- 1 \<le> rfind xs c"
  by (induction xs) (auto simp: Let_def)

lemma rfind_in: "c \<in> set xs \<Longrightarrow> 0 \<le> rfind xs c"
  using rfind_decomp rfind_last by (metis of_nat_0_le_iff split_list_last)

lemma RSC_no_dot: "set r \<subseteq> set RANDOM_STRING_CHARS \<Longrightarrow> dot \<notin> set r"
  using RSC_range by fastforce

lemma suffix_kept:
  assumes nm: "name p \<noteq> []" and nd: "last (name p) \<noteq> dot" and k: "0 < k"
    and r: "set r \<subseteq> set RANDOM_STRING_CHARS"
    and q: "name q = take k (stem p) @ underscore # r @ suffix p"
  shows "suffix q = suffix p"
proof -
  let ?nm = "name p"
  let ?i = "rfind ?nm dot"
  have rdot: "dot \<notin> set (underscore # r)" using RSC_no_dot[OF r] by simp
  show ?thesis
  proof (cases "0 < ?i \<and> ?i < int (length ?nm) - 1")
    case True
    then obtain pre post where d: "?nm = pre @ dot # post" "dot \<notin> set post" "?i = int (length pre)"
      using rfind_decomp[of ?nm dot] by auto
    from True d have post: "post \<noteq> []" by auto
    have st: "stem p = pre" using True d by (simp add: stem_def Let_def)
    have su: "suffix p = dot # post" using True d(3) d(1) by (simp add: suffix_def Let_def)
    let ?h = "take k pre @ underscore # r"
    have nq: "name q = ?h @ dot # post" using q st su by simp
    define m where "m = length ?h"
    have rq: "rfind (name q) dot = int m"
      unfolding nq m_def by (rule rfind_last[OF d(2)])
    have "0 < int m \<and> int m < int (length (name q)) - 1"
      using post by (cases post) (auto simp: nq m_def)
    then have "suffix q = drop m (name q)"
      by (simp add: suffix_def Let_def rq)
    then show ?thesis by (simp add: nq su m_def)
  next
    case False
    then have st: "stem p = ?nm" and su: "suffix p = []"
      by (auto simp: stem_def suffix_def Let_def)
    have nq: "name q = take k ?nm @ underscore # r" using q st su by simp
    have le0: "?i \<le> 0"
    proof (rule ccontr)
      assume "\<not> ?i \<le> 0"
      then have pos: "0 < ?i" by simp
      then obtain pre post where d: "?nm = pre @ dot # post" "?i = int (length pre)"
        using rfind_decomp[of ?nm dot] by auto
      from False pos d have "post = []" by auto
      with d(1) have "last ?nm = dot" by simp
      with nd show False by simp
    qed
    have "rfind (name q) dot \<le> 0"
    proof (cases "dot \<in> set ?nm")
      case no: False
      then have "dot \<notin> set (name q)" using rdot by (auto simp: nq dest: in_set_takeD)
      then show ?thesis by (simp add: rfind_notin)
    next
      case yes: True
      from rfind_in[OF yes] le0 have z: "?i = 0" by simp
      then have "0 \<le> ?i" by simp
      from rfind_decomp[OF this]
      obtain pre post where d: "?nm = pre @ dot # post" "dot \<notin> set post" "?i = int (length pre)"
        by blast
      from d(3) z have "pre = []" by simp
      with d(1) have n0: "?nm = dot # post" by simp
      have "take k ?nm = dot # take (k - 1) post" using k by (cases k) (simp_all add: n0)
      then have "name q = [] @ dot # (take (k - 1) post @ underscore # r)" by (simp add: nq)
      moreover have "dot \<notin> set (take (k - 1) post @ underscore # r)"
        using d(2) rdot by (auto dest: in_set_takeD)
      ultimately have "rfind (name q) dot = int (length ([]::pystr))"
        using rfind_last[of dot "take (k - 1) post @ underscore # r" "[]"] by simp
      then show ?thesis by simp
    qed
    then have "suffix q = []" by (simp add: suffix_def Let_def)
    with su show ?thesis by simp
  qed
qed

lemma Path_alternative:
  assumes nm: "name (Path (Str f)) \<noteq> []" and k: "0 < k"
    and r: "set r \<subseteq> set RANDOM_STRING_CHARS"
  shows "Path (Str (alternative (Path (Str f)) (take k (stem (Path (Str f)))) r))
         = PosixPath (root (Path (Str f)))
             (butlast (names (Path (Str f)))
              @ [take k (stem (Path (Str f))) @ [underscore] @ r @ suffix (Path (Str f))])"
proof -
  let ?o = "Path (Str f)"
  have wfo: "\<forall>n\<in>set (names ?o). wf_name n" by (simp add: names_Path_wf)
  have "set (take k (stem ?o)) \<subseteq> set (name ?o)"
    using stem_subset[of ?o] by (auto dest: in_set_takeD)
  from new_name_wf[OF name_wf[OF nm wfo] this r]
  have "wf_name (take k (stem ?o) @ [underscore] @ r @ suffix ?o)" .
  moreover have "\<forall>n\<in>set (butlast (names ?o)). wf_name n"
    using wfo by (auto dest: in_set_butlastD)
  ultimately show ?thesis
    unfolding alternative_def using root_Path[of f]
    by (intro Path_str) auto
qed


section \<open>The claims\<close>

text \<open>
  C2 (the code departs from the claim). The claim: without \<open>allow_relative_path\<close>,
  \<open>validate_file_name\<close> rejects every name of more than one path segment. The code
  compares the first part with the last one, so the two-segment name \<open>a/a\<close> is returned
  unchanged.
\<close>

theorem validate_file_name_accepts_repeated_segment:
  "validate_file_name (Str (ustr ''a/a'')) False = Inr (Str (ustr ''a/a''))
   \<and> names (Path (Str (ustr ''a/a''))) = [ustr ''a'', ustr ''a'']"
  by code_simp

text \<open>
  C9. With \<open>max_len \<le> 0\<close>, \<open>get_available_filename\<close> never raises the error of the
  exhausted name space (for any \<open>exists\<close> that does not raise that error itself); and for
  a desired name that passes the checks before the loop, it either is still running
  when the fuel ends, or returns a name for which \<open>exists\<close> answered false, or passes on
  an exception that \<open>exists\<close> raised.
\<close>

theorem get_available_filename_unbounded_never_exhausts:
  assumes "max_len \<le> 0"
  shows "((\<forall>n. ex n \<noteq> Inl (Raised SuspiciousFileOperation NoAvailableName)) \<longrightarrow>
            get_available_filename fuel ex rnd pos filename max_len
              \<noteq> Some (Inl (Raised SuspiciousFileOperation NoAvailableName)))
       \<and> (pardir \<notin> set (parts (Path (Str filename)))
            \<and> validate_file_name (Str (name (Path (Str filename)))) False = Inr v \<longrightarrow>
          get_available_filename fuel ex rnd pos filename max_len = None
          \<or> (\<exists>n p. get_available_filename fuel ex rnd pos filename max_len = Some (Inr (n, p))
                    \<and> ex n = Inr False)
          \<or> (\<exists>n e. get_available_filename fuel ex rnd pos filename max_len = Some (Inl e)
                    \<and> ex n = Inl e))"
proof (intro conjI impI)
  assume ex: "\<forall>n. ex n \<noteq> Inl (Raised SuspiciousFileOperation NoAvailableName)"
  show "get_available_filename fuel ex rnd pos filename max_len
          \<noteq> Some (Inl (Raised SuspiciousFileOperation NoAvailableName))"
  proof
    assume a: "get_available_filename fuel ex rnd pos filename max_len
          = Some (Inl (Raised SuspiciousFileOperation NoAvailableName))"
    from get_available_filename_cases[OF a] show False
    proof (elim disjE exE conjE)
      fix e assume "Inl (Raised SuspiciousFileOperation NoAvailableName) = (Inl e :: exn + pystr \<times> nat)"
        "validate_file_name (Str (name (Path (Str filename)))) False = Inl e"
      then show False using validate_raises by fastforce
    next
      fix v assume "validate_file_name (Str (name (Path (Str filename)))) False = Inr v"
        "find_available fuel ex rnd (Path (Str filename)) max_len filename pos
           = Some (Inl (Raised SuspiciousFileOperation NoAvailableName))"
      from find_available_checked[OF this] show False using ex assms by auto
    qed simp
  qed
next
  assume "pardir \<notin> set (parts (Path (Str filename)))
            \<and> validate_file_name (Str (name (Path (Str filename)))) False = Inr v"
  then have c: "pardir \<notin> set (parts (Path (Str filename)))"
    and v: "validate_file_name (Str (name (Path (Str filename)))) False = Inr v" by simp_all
  note eq = get_available_filename_checked[OF c v, of fuel ex rnd pos max_len]
  show "get_available_filename fuel ex rnd pos filename max_len = None
          \<or> (\<exists>n p. get_available_filename fuel ex rnd pos filename max_len = Some (Inr (n, p))
                    \<and> ex n = Inr False)
          \<or> (\<exists>n e. get_available_filename fuel ex rnd pos filename max_len = Some (Inl e)
                    \<and> ex n = Inl e)"
  proof (cases "find_available fuel ex rnd (Path (Str filename)) max_len filename pos")
    case None
    then show ?thesis by (simp add: eq)
  next
    case (Some res)
    from find_available_checked[OF v Some] assms show ?thesis
      unfolding eq Some by (cases res) auto
  qed
qed

theorem get_available_filename_unbounded_never_exhausts_witness:
  "(0::int) \<le> 0
   \<and> get_available_filename 2 (\<lambda>n. Inr (n = ustr ''x.txt'')) (\<lambda>i. i) 0 (ustr ''x.txt'') 0
       \<noteq> Some (Inl (Raised SuspiciousFileOperation NoAvailableName))
   \<and> pardir \<notin> set (parts (Path (Str (ustr ''x.txt''))))
   \<and> validate_file_name (Str (name (Path (Str (ustr ''x.txt''))))) False = Inr (Str (ustr ''x.txt''))
   \<and> (get_available_filename 2 (\<lambda>n. Inr (n = ustr ''x.txt'')) (\<lambda>i. i) 0 (ustr ''x.txt'') 0 = None
      \<or> (\<exists>n p. get_available_filename 2 (\<lambda>n. Inr (n = ustr ''x.txt'')) (\<lambda>i. i) 0 (ustr ''x.txt'') 0
                  = Some (Inr (n, p))
                \<and> (n = ustr ''x.txt'') = False))"
proof -
  have h1: "pardir \<notin> set (parts (Path (Str (ustr ''x.txt''))))"
    by code_simp
  have h2: "validate_file_name (Str (name (Path (Str (ustr ''x.txt''))))) False
              = Inr (Str (ustr ''x.txt''))"
    by code_simp
  show ?thesis
    using get_available_filename_unbounded_never_exhausts
            [of 0 "\<lambda>n. Inr (n = ustr ''x.txt'')" 2 "\<lambda>i. i" 0 "ustr ''x.txt''" "Str (ustr ''x.txt'')"]
          h1 h2
    by simp
qed



text \<open>
  C7 (corrected). The claim: without a base URL, \<open>url\<close> fails with the error of the
  missing configuration for every filename. \<open>url\<close> validates the filename first, so for
  the filename \<open>..\<close> the error is the one of the validation.
\<close>

theorem url_validates_before_base_url:
  "url sample_storage (ustr ''..'') = Inl (Raised SuspiciousFileOperation CouldNotDerive)
   \<and> base_url_field sample_storage = None
   \<and> url sample_storage (ustr ''..'') \<noteq> Inl (Raised ValueError InvalidBaseUrl)"
  by code_simp

text \<open>
  C7 as amended: without a base URL (none, or the empty string), \<open>url\<close> fails for every
  filename with an instance of \<open>ValueError\<close>: with "Invalid base_url" when the filename
  passes \<open>validate_file_name\<close> with relative paths allowed, and with the error of that
  validation otherwise.
\<close>

theorem url_without_base_url:
  assumes "base_url_field self = None \<or> base_url_field self = Some []"
  shows "(\<exists>e. url self filename = Inl e \<and> isinstance e ValueError)
    \<and> (\<forall>v. validate_file_name (Str filename) True = Inr v \<longrightarrow>
           url self filename = Inl (Raised ValueError InvalidBaseUrl))
    \<and> (\<forall>e. validate_file_name (Str filename) True = Inl e \<longrightarrow> url self filename = Inl e)"
proof -
  have b: "base_url self = Inl (Raised ValueError InvalidBaseUrl)"
    using assms by (auto simp: base_url_def)
  show ?thesis
  proof (cases "validate_file_name (Str filename) True")
    case (Inl e)
    from validate_raises[OF Inl] have "isinstance e ValueError"
      by (auto simp: isinstance_def issubclass_def)
    with Inl show ?thesis by (simp add: url_def)
  next
    case (Inr v)
    then show ?thesis by (simp add: url_def b isinstance_def issubclass_def)
  qed
qed

theorem url_without_base_url_witness:
  "(base_url_field sample_storage = None \<or> base_url_field sample_storage = Some [])
   \<and> validate_file_name (Str (ustr ''a/b.txt'')) True = Inr (Str (ustr ''a/b.txt''))
   \<and> url sample_storage (ustr ''a/b.txt'') = Inl (Raised ValueError InvalidBaseUrl)"
proof -
  have h: "base_url_field sample_storage = None \<or> base_url_field sample_storage = Some []"
    by (simp add: sample_storage_def)
  have v: "validate_file_name (Str (ustr ''a/b.txt'')) True = Inr (Str (ustr ''a/b.txt''))"
    by code_simp
  show ?thesis using url_without_base_url[OF h, of "ustr ''a/b.txt''"] h v by simp
qed



text \<open>
  C5. With a positive \<open>max_len\<close>, a name that \<open>get_available_filename\<close> returns is at
  most \<open>max_len\<close> long, and it is the desired filename itself or is built from the first
  \<open>k\<close> characters of the stem of the desired name, one separator and seven fresh
  random characters; when \<open>k\<close> is less than the length of that stem the name is exactly
  \<open>max_len\<close> long.
\<close>

theorem get_available_filename_within_budget:
  assumes "0 < max_len"
    and "get_available_filename fuel ex rnd pos filename max_len = Some (Inr (n, p))"
  shows "int (length n) \<le> max_len
    \<and> (n = filename
       \<or> (\<exists>k r. 0 < k \<and> k \<le> length (stem (Path (Str filename)))
             \<and> length r = 7 \<and> set r \<subseteq> set RANDOM_STRING_CHARS
             \<and> n = alternative (Path (Str filename)) (take k (stem (Path (Str filename)))) r
             \<and> (k < length (stem (Path (Str filename))) \<longrightarrow> int (length n) = max_len)))"
  using get_available_filename_cases[OF assms(2)]
proof (elim disjE exE conjE)
  fix v assume "validate_file_name (Str (name (Path (Str filename)))) False = Inr v"
    "find_available fuel ex rnd (Path (Str filename)) max_len filename pos = Some (Inr (n, p))"
  from find_available_checked[OF this] assms(1) show ?thesis by simp
qed simp_all

theorem get_available_filename_within_budget_witness:
  "(0::int) < 14
   \<and> get_available_filename 5 (\<lambda>n. Inr False) (\<lambda>i. 3 * i) 0 (ustr ''d/abcdefgh.tar.gz'') 14
       = Some (Inr (ustr ''d/a_vyBEHKN.gz'', 14))
   \<and> int (length (ustr ''d/a_vyBEHKN.gz'')) \<le> 14
   \<and> stem (Path (Str (ustr ''d/abcdefgh.tar.gz''))) = ustr ''abcdefgh.tar''"
proof -
  have e: "get_available_filename 5 (\<lambda>n. Inr False) (\<lambda>i. 3 * i) 0 (ustr ''d/abcdefgh.tar.gz'') 14
       = Some (Inr (ustr ''d/a_vyBEHKN.gz'', 14))" by code_simp
  have s: "stem (Path (Str (ustr ''d/abcdefgh.tar.gz''))) = ustr ''abcdefgh.tar''" by code_simp
  have h: "(0::int) < 14" by simp
  show ?thesis using get_available_filename_within_budget[OF h e] e s by simp
qed

text \<open>
  C4 (corrected). The claim: what \<open>get_valid_filename\<close> returns has characters of
  \<open>[A-Za-z0-9._-]\<close> only. The class \<open>\w\<close> matches the letters and digits of every
  script, so the Cyrillic letter U+044F is kept.
\<close>

theorem get_valid_filename_keeps_cyrillic:
  "get_valid_filename sample_db [1103] = Inr [1103] \<and> 1103 \<notin> set ascii_allowed"
  by code_simp

text \<open>
  C4 as amended: \<open>get_valid_filename\<close> either fails with "Could not derive file name"
  or returns a string of characters that \<open>\w\<close> matches, dots and hyphens, which is not
  empty, not \<open>.\<close> and not \<open>..\<close>; the characters are within \<open>[A-Za-z0-9._-]\<close> when all
  of them are ASCII (given that \<open>\w\<close> matches, below 128, letters, digits and the
  underscore only).
\<close>

theorem get_valid_filename_word_chars:
  "(\<forall>e. get_valid_filename u raw = Inl e \<longrightarrow> e = Raised SuspiciousFileOperation CouldNotDerive)
   \<and> (\<forall>s. get_valid_filename u raw = Inr s \<longrightarrow>
          (\<forall>c\<in>set s. isword u c \<or> c = dot \<or> c = hyphen)
          \<and> s \<noteq> [] \<and> s \<noteq> curdir \<and> s \<noteq> pardir
          \<and> ((\<forall>c. isword u c \<and> c < 128 \<longrightarrow> c \<in> set (ascii_letters @ digits @ [underscore]))
               \<and> (\<forall>c\<in>set s. c < 128) \<longrightarrow> set s \<subseteq> set ascii_allowed))"
  by (auto simp: get_valid_filename_def Let_def ascii_allowed_def split: if_splits)

theorem get_valid_filename_word_chars_witness:
  "get_valid_filename sample_db (ustr ''test some file.jpg'') = Inr (ustr ''test_some_file.jpg'')
   \<and> set (ustr ''test_some_file.jpg'') \<subseteq> set ascii_allowed"
proof -
  have e: "get_valid_filename sample_db (ustr ''test some file.jpg'') = Inr (ustr ''test_some_file.jpg'')"
    by code_simp
  have a: "\<forall>c. isword sample_db c \<and> c < 128 \<longrightarrow> c \<in> set (ascii_letters @ digits @ [underscore])"
    by (auto simp: sample_db_def)
  have b: "\<forall>c\<in>set (ustr ''test_some_file.jpg''). c < 128"
    by (simp add: ustr_def)
  show ?thesis using get_valid_filename_word_chars[of sample_db "ustr ''test some file.jpg''"] e a b by blast
qed




text \<open>
  C3 (the code departs from the claim). The claim: a retry after a failed exclusive
  creation resolves the name under the \<open>max_len\<close> given to \<open>save\<close>. \<open>_save\<close> calls
  \<open>get_available_filename(filename)\<close> without it: \<open>save("a.txt", data, max_len=5)\<close>,
  with another writer creating \<open>a.txt\<close> before the file is opened, stores and returns a
  name of 13 characters; without the other writer it returns \<open>a.txt\<close>.
\<close>

theorem save_retry_ignores_max_len:
  "map_option fst (save 3 [] sample_storage (\<lambda>i. i) racing_world (ustr ''a.txt'') [104, 105] 5)
     = Some (Inr (ustr ''a_abcdefg.txt''))
   \<and> int (length (ustr ''a_abcdefg.txt'')) = 13
   \<and> map_option fst (save 3 [] sample_storage (\<lambda>i. i) (racing_world\<lparr>writers := []\<rparr>) (ustr ''a.txt'') [104, 105] 5)
     = Some (Inr (ustr ''a.txt''))"
  by code_simp

text \<open>
  C8 (corrected). The claim: the returned name keeps the directory components and the
  suffix of the desired name. For the desired name \<open>a.\<close>, whose suffix is empty, the
  returned name \<open>a._abcdefg\<close> has the suffix \<open>._abcdefg\<close>.
\<close>

theorem get_available_filename_changes_suffix:
  "get_available_filename 2 (\<lambda>n. Inr (n = ustr ''a.'')) (\<lambda>i. i) 0 (ustr ''a.'') 0
     = Some (Inr (ustr ''a._abcdefg'', 7))
   \<and> suffix (Path (Str (ustr ''a.''))) = []
   \<and> suffix (Path (Str (ustr ''a._abcdefg''))) = ustr ''._abcdefg''"
  by code_simp

text \<open>
  C8 as amended: a name that \<open>get_available_filename\<close> returns, read as a path, has the
  root and the directory components of the desired path; it is the desired filename
  itself, or its last component is a non-empty prefix of the desired stem (the whole
  stem when nothing was cut), the separator, seven random characters and the suffix of
  the desired name; and its suffix is the suffix of the desired name whenever the
  desired name does not end in a dot.
\<close>

theorem get_available_filename_frame:
  assumes "get_available_filename fuel ex rnd pos filename max_len = Some (Inr (n, p))"
  shows "root (Path (Str n)) = root (Path (Str filename))
   \<and> butlast (names (Path (Str n))) = butlast (names (Path (Str filename)))
   \<and> (n = filename
      \<or> (\<exists>k r. 0 < k \<and> k \<le> length (stem (Path (Str filename)))
            \<and> length r = 7 \<and> set r \<subseteq> set RANDOM_STRING_CHARS
            \<and> name (Path (Str n))
                = take k (stem (Path (Str filename))) @ [underscore] @ r
                  @ suffix (Path (Str filename))))
   \<and> (last (name (Path (Str filename))) \<noteq> dot \<longrightarrow>
        suffix (Path (Str n)) = suffix (Path (Str filename)))"
  using get_available_filename_cases[OF assms]
proof (elim disjE exE conjE)
  fix v assume v: "validate_file_name (Str (name (Path (Str filename)))) False = Inr v"
    and f: "find_available fuel ex rnd (Path (Str filename)) max_len filename pos = Some (Inr (n, p))"
  let ?o = "Path (Str filename)"
  have nm: "name ?o \<noteq> []" using v by (rule validated_name)
  from find_available_checked[OF v f]
  consider "n = filename"
    | k r where "0 < k" "k \<le> length (stem ?o)" "length r = 7" "set r \<subseteq> set RANDOM_STRING_CHARS"
        "n = alternative ?o (take k (stem ?o)) r"
    by auto
  then show ?thesis
  proof cases
    case 1
    then show ?thesis by simp
  next
    case 2
    let ?new = "take k (stem ?o) @ [underscore] @ r @ suffix ?o"
    have P: "Path (Str n) = PosixPath (root ?o) (butlast (names ?o) @ [?new])"
      unfolding 2(5) by (rule Path_alternative[OF nm 2(1) 2(4)])
    have nn: "name (Path (Str n)) = ?new" by (simp add: P name_def)
    have "suffix (Path (Str n)) = suffix ?o" if "last (name ?o) \<noteq> dot"
      by (rule suffix_kept[OF nm that 2(1) 2(4)]) (simp add: nn)
    moreover have "\<exists>k r. 0 < k \<and> k \<le> length (stem ?o) \<and> length r = 7
        \<and> set r \<subseteq> set RANDOM_STRING_CHARS \<and> name (Path (Str n)) = take k (stem ?o) @ [underscore] @ r @ suffix ?o"
      using 2 nn by blast
    ultimately show ?thesis by (simp add: P)
  qed
qed simp_all

theorem get_available_filename_frame_witness:
  "get_available_filename 2 (\<lambda>n. Inr (n = ustr ''docs/report.txt'')) (\<lambda>i. i) 0
       (ustr ''docs/report.txt'') 0
     = Some (Inr (ustr ''docs/report_abcdefg.txt'', 7))
   \<and> last (name (Path (Str (ustr ''docs/report.txt'')))) \<noteq> dot
   \<and> butlast (names (Path (Str (ustr ''docs/report_abcdefg.txt'')))) = [ustr ''docs'']
   \<and> suffix (Path (Str (ustr ''docs/report_abcdefg.txt''))) = ustr ''.txt''"
proof -
  have e: "get_available_filename 2 (\<lambda>n. Inr (n = ustr ''docs/report.txt'')) (\<lambda>i. i) 0
       (ustr ''docs/report.txt'') 0
     = Some (Inr (ustr ''docs/report_abcdefg.txt'', 7))" by code_simp
  have l: "last (name (Path (Str (ustr ''docs/report.txt'')))) \<noteq> dot" by code_simp
  have b: "butlast (names (Path (Str (ustr ''docs/report.txt'')))) = [ustr ''docs'']" by code_simp
  have s: "suffix (Path (Str (ustr ''docs/report.txt''))) = ustr ''.txt''" by code_simp
  show ?thesis using get_available_filename_frame[OF e] e l b s by simp
qed

end
